theory Spec2Isabelle
  imports Main "HOL-Library.Char_ord" "HOL-Library.List_Lexorder"
begin

section \<open>The mapping store of src/lib/database.js\<close>

text \<open>
  The store is an SQLite database with two tables, \<open>objects\<close> and \<open>buckets\<close>
  (\<open>createTables\<close>). A table is the list of its rows in ascending rowid order; the
  \<open>INTEGER PRIMARY KEY AUTOINCREMENT\<close> column takes a value above every rowid the table
  ever held, so a new row goes to the end of the list. A text value is the string of
  its UTF-8 bytes, and SQLite compares texts bytewise (the BINARY collation), which is
  the lexicographic order of \<open>char list\<close>. \<open>CURRENT_TIMESTAMP\<close> is the reading of
  the store's clock in whole seconds; every operation that evaluates it takes that
  reading as its argument \<open>now\<close>.
  The \<open>metadata\<close> column holds \<open>JSON.stringify\<close> of an object of strings and is read
  back with \<open>JSON.parse\<close>; the column is modelled by the object itself.
  Failures of the storage medium are outside the model.

  The specification calls \<open>storeObjectMapping\<close> upsertLive, \<open>getObjectMapping\<close> getLive,
  \<open>deleteObjectMapping\<close> softDelete and \<open>listObjects\<close> list.
\<close>

type_synonym metadata = "(string \<times> string) list"

record object_row =
  id_col :: nat
  bucket :: string
  key :: string
  irys_id :: string
  content_type :: string
  size_col :: nat
  etag :: string
  last_modified :: nat
  metadata :: metadata
  created_at :: nat
  updated_at :: nat
  is_deleted :: bool

record bucket_row =
  bucket_id :: nat
  name :: string
  bucket_created_at :: nat
  bucket_is_deleted :: bool

record database =
  objects :: "object_row list"
  objects_seq :: nat
  buckets :: "bucket_row list"
  buckets_seq :: nat

definition empty_database :: database where
  "empty_database = \<lparr>objects = [], objects_seq = 0, buckets = [], buckets_seq = 0\<rparr>"

text \<open>
  \<open>ensureBucketExists\<close>: \<open>INSERT OR IGNORE INTO buckets (name)\<close>; the name is UNIQUE.
  SQLite takes the next AUTOINCREMENT value before it finds the conflict, so an ignored
  insert advances the sequence too.
\<close>

definition ensureBucketExists :: "nat \<Rightarrow> string \<Rightarrow> database \<Rightarrow> database" where
  "ensureBucketExists now bucketName db =
     (if \<exists>b \<in> set (buckets db). name b = bucketName
      then db\<lparr>buckets_seq := Suc (buckets_seq db)\<rparr>
      else db\<lparr>buckets := buckets db @
                  [\<lparr>bucket_id = Suc (buckets_seq db), name = bucketName,
                    bucket_created_at = now, bucket_is_deleted = False\<rparr>],
                buckets_seq := Suc (buckets_seq db)\<rparr>)"

text \<open>The receipt of the backend; the store reads its \<open>id\<close> only.\<close>

record irys_receipt =
  receipt_id :: string

definition quote :: "string \<Rightarrow> string" where
  "quote s = CHR 0x22 # s @ [CHR 0x22]"

text \<open>
  \<open>getObjectMapping\<close>: \<open>database.get\<close> gives the first row of the result, and
  the query has no ORDER BY: SQLite walks the table (or \<open>idx_bucket_key\<close>, whose equal
  entries are in rowid order), so the first row is the one with the least rowid.
\<close>

definition getObjectMapping :: "string \<Rightarrow> string \<Rightarrow> database \<Rightarrow> object_row option" where
  "getObjectMapping b k db =
     find (\<lambda>r. bucket r = b \<and> key r = k \<and> \<not> is_deleted r) (objects db)"

text \<open>
  \<open>storeObjectMapping\<close>: \<open>INSERT OR REPLACE\<close> deletes the rows that conflict with
  the new one on a uniqueness constraint, here \<open>irys_id\<close> alone, and inserts the new
  row; the columns the statement does not name take their defaults. The function
  returns what \<open>getObjectMapping\<close> then reads.
\<close>

definition insert_or_replace_object ::
  "nat \<Rightarrow> string \<Rightarrow> string \<Rightarrow> string \<Rightarrow> string \<Rightarrow> nat \<Rightarrow> string \<Rightarrow> metadata \<Rightarrow> database \<Rightarrow> database" where
  "insert_or_replace_object now b k rid ct sz et md db =
     db\<lparr>objects := filter (\<lambda>r. irys_id r \<noteq> rid) (objects db) @
          [\<lparr>id_col = Suc (objects_seq db), bucket = b, key = k, irys_id = rid,
            content_type = ct, size_col = sz, etag = et, last_modified = now,
            metadata = md, created_at = now, updated_at = now, is_deleted = False\<rparr>],
        objects_seq := Suc (objects_seq db)\<rparr>"

definition storeObjectMapping ::
  "nat \<Rightarrow> string \<Rightarrow> string \<Rightarrow> irys_receipt \<Rightarrow> string \<Rightarrow> nat \<Rightarrow> metadata \<Rightarrow> database
     \<Rightarrow> object_row option \<times> database" where
  "storeObjectMapping now b k irysReceipt contentType sz md db =
     (let db1 = ensureBucketExists now b db;
          et = quote (receipt_id irysReceipt);
          db2 = insert_or_replace_object now b k (receipt_id irysReceipt) contentType sz et md db1
      in (getObjectMapping b k db2, db2))"

text \<open>
  \<open>deleteObjectMapping\<close>: the UPDATE marks every live row of the key and the function
  returns \<open>result.changes > 0\<close>.
\<close>

definition deleteObjectMapping :: "nat \<Rightarrow> string \<Rightarrow> string \<Rightarrow> database \<Rightarrow> bool \<times> database" where
  "deleteObjectMapping now b k db =
     (let hit = (\<lambda>r. bucket r = b \<and> key r = k \<and> \<not> is_deleted r);
          changes = length (filter hit (objects db))
      in (changes > 0,
          db\<lparr>objects := map (\<lambda>r. if hit r then r\<lparr>is_deleted := True, updated_at := now\<rparr> else r)
                             (objects db)\<rparr>))"


subsection \<open>Listing\<close>

text \<open>
  The LIKE operator of SQLite on the UTF-8 bytes of pattern and text: \<open>%\<close> matches any
  run of characters, \<open>_\<close> any single character (a lead byte with the continuation
  bytes that follow it), and every other byte matches itself, upper and lower case ASCII
  letters being equal. The query gives no ESCAPE character. SQLite reads both strings
  as C strings, up to their first NUL.
\<close>

definition is_continuation :: "char \<Rightarrow> bool" where
  "is_continuation c = (CHR 0x80 \<le> c \<and> c \<le> CHR 0xBF)"

definition utf8_tail :: "string \<Rightarrow> string" where
  "utf8_tail s =
     (case s of [] \<Rightarrow> []
      | c # cs \<Rightarrow> if CHR 0xC0 \<le> c then dropWhile is_continuation cs else cs)"

definition c_str :: "string \<Rightarrow> string" where
  "c_str s = takeWhile (\<lambda>c. c \<noteq> CHR 0x00) s"

definition ascii_lower :: "char \<Rightarrow> char" where
  "ascii_lower c =
     (if CHR ''A'' \<le> c \<and> c \<le> CHR ''Z'' then char_of (of_char c + (32::nat)) else c)"

function sql_like :: "string \<Rightarrow> string \<Rightarrow> bool" where
  "sql_like [] [] = True"
| "sql_like [] (c # cs) = False"
| "sql_like (p # ps) [] = (p = CHR ''%'' \<and> sql_like ps [])"
| "sql_like (p # ps) (c # cs) =
     (if p = CHR ''%'' then sql_like ps (c # cs) \<or> sql_like (p # ps) (utf8_tail (c # cs))
      else if p = CHR ''_'' then sql_like ps (utf8_tail (c # cs))
      else ascii_lower p = ascii_lower c \<and> sql_like ps cs)"
  by pat_completeness auto
termination
proof (relation "measure (\<lambda>(p, s). length p + length s)")
  fix c :: char and cs :: string
  have "length (utf8_tail (c # cs)) \<le> length cs"
    by (simp add: utf8_tail_def length_dropWhile_le)
  then show "\<And>p ps. p = CHR ''%'' \<Longrightarrow>
      ((p # ps, utf8_tail (c # cs)), (p # ps, c # cs)) \<in> measure (\<lambda>(p, s). length p + length s)"
    and "\<And>p ps. p \<noteq> CHR ''%'' \<Longrightarrow> p = CHR ''_'' \<Longrightarrow>
      ((ps, utf8_tail (c # cs)), (p # ps, c # cs)) \<in> measure (\<lambda>(p, s). length p + length s)"
    by simp_all
qed simp_all

definition sqlite_like :: "string \<Rightarrow> string \<Rightarrow> bool" where
  "sqlite_like pat txt = sql_like (c_str pat) (c_str txt)"

text \<open>
  A JavaScript number as this code uses it: an integer or NaN. JavaScript holds the
  integer as a double and rounds it beyond \<open>2^53\<close>, up to plus or minus infinity; the
  minimum with 1000, the comparisons and the slice below come out the same on the
  rounded value as on the integer.
\<close>

datatype jsnum = NaN | Num int

fun js_gt :: "jsnum \<Rightarrow> jsnum \<Rightarrow> bool" where
  "js_gt (Num a) (Num b) = (a > b)"
| "js_gt _ _ = False"

fun js_add :: "jsnum \<Rightarrow> jsnum \<Rightarrow> jsnum" where
  "js_add (Num a) (Num b) = Num (a + b)"
| "js_add _ _ = NaN"

fun Math_min :: "jsnum \<Rightarrow> jsnum \<Rightarrow> jsnum" where
  "Math_min (Num a) (Num b) = Num (min a b)"
| "Math_min _ _ = NaN"

text \<open>
  The options of \<open>listObjects\<close>; the defaults of the destructuring apply to a field
  that is absent, and the controller passes all four.
\<close>

record list_options =
  prefix :: string
  marker :: string
  maxKeys :: jsnum
  delimiter :: string

text \<open>The rows that the SELECT of \<open>listObjects\<close> yields when it runs through.\<close>

definition select_objects :: "string \<Rightarrow> list_options \<Rightarrow> database \<Rightarrow> object_row list" where
  "select_objects b opts db =
     (let rows0 = filter (\<lambda>r. bucket r = b \<and> \<not> is_deleted r) (objects db);
          rows1 = (if prefix opts \<noteq> [] then
                     filter (\<lambda>r. sqlite_like (prefix opts @ ''%'') (key r)) rows0
                   else rows0);
          rows2 = (if marker opts \<noteq> [] then filter (\<lambda>r. key r > marker opts) rows1
                   else rows1);
          rows3 = sort_key key rows2
      in (case maxKeys opts of
            Num n \<Rightarrow> if n > 0 then take (nat n) rows3 else rows3
          | NaN \<Rightarrow> rows3))"

text \<open>
  SQLite refuses a LIKE pattern of more than 50000 bytes (\<open>LIKE or GLOB pattern too
  complex\<close>) when it evaluates the operator. It evaluates it on the rows it reaches
  through \<open>idx_bucket_key\<close>: the rows of the bucket, deleted or not, above the marker
  when there is one. \<open>listObjects\<close> answers the error of the database by throwing
  \<open>Failed to list objects\<close>.
\<close>

definition like_pattern_refused :: "string \<Rightarrow> list_options \<Rightarrow> database \<Rightarrow> bool" where
  "like_pattern_refused b opts db =
     (prefix opts \<noteq> [] \<and> int (length (prefix opts @ ''%'')) > 50000 \<and>
      (\<exists>r \<in> set (objects db). bucket r = b \<and> (marker opts = [] \<or> marker opts < key r)))"

datatype store_error = FailedToListObjects

definition listObjects :: "string \<Rightarrow> list_options \<Rightarrow> database \<Rightarrow> store_error + object_row list" where
  "listObjects b opts db =
     (if like_pattern_refused b opts db then Inl FailedToListObjects
      else Inr (select_objects b opts db))"

section \<open>The controllers of src/controllers/s3Controller.js\<close>

text \<open>
  A handler answers with the body of its response or with the error body of one of its
  early returns; an exception inside the handler's \<open>try\<close> block is answered by its
  \<open>catch\<close> with status 500, \<open>InternalError\<close>. The headers of the answers are not
  part of the model.
\<close>

datatype http_error = MissingParameter | NoSuchKey | InternalError

text \<open>
  \<open>parseInt(s, 10)\<close>: leading white space, an optional sign, then the longest run of
  decimal digits; NaN when there is no digit. The white space of JavaScript is, on the
  UTF-8 bytes of the string: the six ASCII characters of \<open>is_space\<close>; U+00A0; and the
  three-byte characters U+1680, U+2000 to U+200A, U+2028, U+2029, U+202F, U+205F,
  U+3000 and U+FEFF.
\<close>

definition is_space :: "char \<Rightarrow> bool" where
  "is_space c = (c \<in> set [CHR 0x09, CHR 0x0A, CHR 0x0B, CHR 0x0C, CHR 0x0D, CHR 0x20])"

definition is_space3 :: "char \<Rightarrow> char \<Rightarrow> char \<Rightarrow> bool" where
  "is_space3 a b c =
     ((a = CHR 0xE1 \<and> b = CHR 0x9A \<and> c = CHR 0x80) \<or>
      (a = CHR 0xE2 \<and> b = CHR 0x80 \<and>
         ((CHR 0x80 \<le> c \<and> c \<le> CHR 0x8A) \<or> c = CHR 0xA8 \<or> c = CHR 0xA9 \<or> c = CHR 0xAF)) \<or>
      (a = CHR 0xE2 \<and> b = CHR 0x81 \<and> c = CHR 0x9F) \<or>
      (a = CHR 0xE3 \<and> b = CHR 0x80 \<and> c = CHR 0x80) \<or>
      (a = CHR 0xEF \<and> b = CHR 0xBB \<and> c = CHR 0xBF))"

text \<open>The number of bytes of the white space character at the head of a string, or 0.\<close>

fun ws_len :: "string \<Rightarrow> nat" where
  "ws_len (a # b # c # rest) =
     (if is_space a then 1 else if a = CHR 0xC2 \<and> b = CHR 0xA0 then 2
      else if is_space3 a b c then 3 else 0)"
| "ws_len [a, b] = (if is_space a then 1 else if a = CHR 0xC2 \<and> b = CHR 0xA0 then 2 else 0)"
| "ws_len [a] = (if is_space a then 1 else 0)"
| "ws_len [] = 0"

function skip_white_space :: "string \<Rightarrow> string" where
  "skip_white_space s = (if ws_len s = 0 then s else skip_white_space (drop (ws_len s) s))"
  by pat_completeness auto
termination
proof (relation "measure length")
  fix s :: string
  assume "ws_len s \<noteq> 0"
  then have "s \<noteq> []" by auto
  with \<open>ws_len s \<noteq> 0\<close> show "(drop (ws_len s) s, s) \<in> measure length" by simp
qed simp

definition is_digit :: "char \<Rightarrow> bool" where
  "is_digit c = (CHR ''0'' \<le> c \<and> c \<le> CHR ''9'')"

definition digit_val :: "char \<Rightarrow> int" where
  "digit_val c = int (of_char c) - 48"

definition digits_val :: "string \<Rightarrow> int" where
  "digits_val ds = foldl (\<lambda>acc d. 10 * acc + digit_val d) 0 ds"

definition parse_digits :: "string \<Rightarrow> int option" where
  "parse_digits s =
     (let ds = takeWhile is_digit s in if ds = [] then None else Some (digits_val ds))"

definition parseInt :: "string \<Rightarrow> jsnum" where
  "parseInt s =
     (case skip_white_space s of
        [] \<Rightarrow> NaN
      | c # cs \<Rightarrow>
          if c = CHR ''-'' then (case parse_digits cs of None \<Rightarrow> NaN | Some n \<Rightarrow> Num (- n))
          else if c = CHR ''+'' then (case parse_digits cs of None \<Rightarrow> NaN | Some n \<Rightarrow> Num n)
          else (case parse_digits (c # cs) of None \<Rightarrow> NaN | Some n \<Rightarrow> Num n))"

text \<open>
  The query string of a listing, each parameter given at most once; a parameter that is
  absent is \<open>None\<close>.
\<close>

record list_query =
  q_prefix :: "string option"
  q_marker :: "string option"
  q_max_keys :: "string option"
  q_delimiter :: "string option"

record list_entry =
  Key :: string
  LastModified :: int
  ETag :: string
  Size :: nat

record list_response =
  Name :: string
  Prefix :: string
  Marker :: string
  MaxKeys :: jsnum
  IsTruncated :: bool
  Contents :: "list_entry list"
  NextMarker :: "string option"

text \<open>\<open>objects.slice(0, maxKeys)\<close>: a negative end counts from the end of the array.\<close>

definition slice0 :: "'a list \<Rightarrow> int \<Rightarrow> 'a list" where
  "slice0 xs e = (if e < 0 then take (nat (int (length xs) + e)) xs else take (nat e) xs)"

text \<open>
  \<open>new Date(obj.last_modified)\<close> reads the text that SQLite wrote, a UTC reading
  without a zone, as a time of the server's own zone. The argument \<open>zone\<close> gives the
  instant, in seconds, that a wall clock reading denotes in that zone; on a server in
  UTC it is the reading itself.
\<close>

definition utc :: "nat \<Rightarrow> int" where
  "utc t = int t"

definition to_entry :: "(nat \<Rightarrow> int) \<Rightarrow> object_row \<Rightarrow> list_entry" where
  "to_entry zone obj = \<lparr>Key = key obj, LastModified = zone (last_modified obj), ETag = etag obj,
                         Size = size_col obj\<rparr>"

definition listObjectsV1 ::
  "(nat \<Rightarrow> int) \<Rightarrow> string \<Rightarrow> list_query \<Rightarrow> database \<Rightarrow> http_error + list_response" where
  "listObjectsV1 zone b q db =
     (let pre = (case q_prefix q of None \<Rightarrow> [] | Some s \<Rightarrow> s);
          mark = (case q_marker q of None \<Rightarrow> [] | Some s \<Rightarrow> s);
          maxKeysParam = (case q_max_keys q of None \<Rightarrow> ''1000'' | Some s \<Rightarrow> s);
          delim = (case q_delimiter q of None \<Rightarrow> [] | Some s \<Rightarrow> s)
      in if b = [] then Inl MissingParameter
         else
           let maxK = Math_min (parseInt maxKeysParam) (Num 1000)
           in case listObjects b \<lparr>prefix = pre, marker = mark,
                                    maxKeys = js_add maxK (Num 1), delimiter = delim\<rparr> db of
                Inl e \<Rightarrow> Inl InternalError
              | Inr objs \<Rightarrow>
                  let isTruncated = js_gt (Num (int (length objs))) maxK;
                      returnObjects = (case maxK of
                                         Num n \<Rightarrow> if isTruncated then slice0 objs n else objs
                                       | NaN \<Rightarrow> objs)
                  in if isTruncated \<and> returnObjects = [] then Inl InternalError
                     else
                       let nextMarker = (if isTruncated then Some (key (last returnObjects))
                                         else None)
                       in Inr \<lparr>Name = b, Prefix = pre, Marker = mark, MaxKeys = maxK,
                               IsTruncated = isTruncated,
                               Contents = map (to_entry zone) returnObjects,
                               NextMarker = (case nextMarker of None \<Rightarrow> None
                                             | Some m \<Rightarrow> if m = [] then None else Some m)\<rparr>)"

text \<open>
  \<open>getObject\<close> and \<open>headObject\<close> up to the lookup: the record they go on with, or the
  error they answer.
\<close>

definition getObject :: "string \<Rightarrow> string \<Rightarrow> database \<Rightarrow> http_error + object_row" where
  "getObject b k db =
     (if b = [] \<or> k = [] then Inl MissingParameter
      else case getObjectMapping b k db of None \<Rightarrow> Inl NoSuchKey | Some r \<Rightarrow> Inr r)"

text \<open>
  The backend is a ledger of accepted payloads under their receipt ids. \<open>uploadToIrys\<close>
  appends the payload; the id of the receipt is the backend's choice and is an argument
  here.
\<close>

record world =
  ledger :: "(string \<times> string) list"
  store :: database

definition uploadToIrys :: "string \<Rightarrow> irys_receipt \<Rightarrow> world \<Rightarrow> world" where
  "uploadToIrys fileBuffer r w = w\<lparr>ledger := ledger w @ [(receipt_id r, fileBuffer)]\<rparr>"

record put_response =
  put_ETag :: string
  put_Bucket :: string
  put_Key :: string
  IrysTransactionId :: string

text \<open>
  \<open>putObject\<close> from the point where the payload, its content type and the user metadata
  have been read from the request.
\<close>

definition putObject ::
  "nat \<Rightarrow> string \<Rightarrow> string \<Rightarrow> string \<Rightarrow> string \<Rightarrow> metadata \<Rightarrow> irys_receipt \<Rightarrow> world
     \<Rightarrow> (http_error + put_response) \<times> world" where
  "putObject now b k fileBuffer contentType md irysReceipt w =
     (if b = [] \<or> k = [] then (Inl MissingParameter, w)
      else
        let w1 = uploadToIrys fileBuffer irysReceipt w;
            (objectRecord, db') = storeObjectMapping now b k irysReceipt contentType
                                    (length fileBuffer) md (store w1);
            w2 = w1\<lparr>store := db'\<rparr>
        in case objectRecord of
             None \<Rightarrow> (Inl InternalError, w2)
           | Some r \<Rightarrow> (Inr \<lparr>put_ETag = etag r, put_Bucket = b, put_Key = k,
                               IrysTransactionId = receipt_id irysReceipt\<rparr>, w2))"

text \<open>\<open>deleteObject\<close>: status 204 whether or not a live record was there.\<close>

datatype delete_response = NoContent

definition deleteObject ::
  "nat \<Rightarrow> string \<Rightarrow> string \<Rightarrow> world \<Rightarrow> (http_error + delete_response) \<times> world" where
  "deleteObject now b k w =
     (if b = [] \<or> k = [] then (Inl MissingParameter, w)
      else case getObjectMapping b k (store w) of
             None \<Rightarrow> (Inr NoContent, w)
           | Some r \<Rightarrow> (Inr NoContent, w\<lparr>store := snd (deleteObjectMapping now b k (store w))\<rparr>))"

section \<open>Sequences of store operations\<close>

datatype store_op =
  UpsertLive nat string string irys_receipt string nat metadata
| SoftDelete nat string string

fun op_time :: "store_op \<Rightarrow> nat" where
  "op_time (UpsertLive now b k r ct sz md) = now"
| "op_time (SoftDelete now b k) = now"

fun apply_op :: "store_op \<Rightarrow> database \<Rightarrow> database" where
  "apply_op (UpsertLive now b k r ct sz md) db = snd (storeObjectMapping now b k r ct sz md db)"
| "apply_op (SoftDelete now b k) db = snd (deleteObjectMapping now b k db)"

fun run :: "store_op list \<Rightarrow> database \<Rightarrow> database" where
  "run [] db = db"
| "run (x # xs) db = run xs (apply_op x db)"

text \<open>Whether an operation writes the key \<open>k\<close> of the bucket \<open>b\<close>.\<close>

fun writes_key :: "string \<Rightarrow> string \<Rightarrow> store_op \<Rightarrow> bool" where
  "writes_key b k (UpsertLive now b' k' r ct sz md) = (b' = b \<and> k' = k)"
| "writes_key b k (SoftDelete now b' k') = False"

definition live_rows :: "string \<Rightarrow> string \<Rightarrow> database \<Rightarrow> object_row list" where
  "live_rows b k db = filter (\<lambda>r. bucket r = b \<and> key r = k \<and> \<not> is_deleted r) (objects db)"

definition rows_of :: "string \<Rightarrow> string \<Rightarrow> database \<Rightarrow> object_row list" where
  "rows_of b k db = filter (\<lambda>r. bucket r = b \<and> key r = k) (objects db)"

definition other_rows :: "string \<Rightarrow> string \<Rightarrow> database \<Rightarrow> object_row list" where
  "other_rows b k db = filter (\<lambda>r. \<not> (bucket r = b \<and> key r = k)) (objects db)"

section \<open>States and requests used as examples\<close>

definition empty_world :: world where
  "empty_world = \<lparr>ledger = [], store = empty_database\<rparr>"

definition max_keys_query :: "string \<Rightarrow> list_query" where
  "max_keys_query s = \<lparr>q_prefix = None, q_marker = None, q_max_keys = Some s, q_delimiter = None\<rparr>"

text \<open>One key written once.\<close>

definition single_database :: database where
  "single_database =
     run [UpsertLive 10 ''docs'' ''a'' \<lparr>receipt_id = ''tx1''\<rparr> ''text/plain'' 1 []] empty_database"

text \<open>One key written and deleted: the bucket exists and holds no live record.\<close>

definition emptied_database :: database where
  "emptied_database =
     run [UpsertLive 10 ''docs'' ''a'' \<lparr>receipt_id = ''tx1''\<rparr> ''text/plain'' 1 [],
          SoftDelete 11 ''docs'' ''a''] empty_database"

text \<open>One key written twice, ten seconds apart, under two receipts.\<close>

definition overwritten_database :: database where
  "overwritten_database =
     run [UpsertLive 10 ''photos'' ''cat.png'' \<lparr>receipt_id = ''tx1''\<rparr> ''image/png'' 3 [],
          UpsertLive 20 ''photos'' ''cat.png'' \<lparr>receipt_id = ''tx2''\<rparr> ''image/png'' 4 []]
       empty_database"

text \<open>The same two writes within one second of the clock.\<close>

definition same_second_ops :: "store_op list" where
  "same_second_ops =
     [UpsertLive 10 ''photos'' ''cat.png'' \<lparr>receipt_id = ''tx1''\<rparr> ''image/png'' 3 [],
      UpsertLive 10 ''photos'' ''cat.png'' \<lparr>receipt_id = ''tx2''\<rparr> ''image/png'' 4 []]"

text \<open>Three keys of one bucket, of which only the first starts with \<open>a_\<close>.\<close>

definition wildcard_database :: database where
  "wildcard_database =
     run [UpsertLive 10 ''docs'' ''a_1'' \<lparr>receipt_id = ''tx1''\<rparr> ''text/plain'' 1 [],
          UpsertLive 11 ''docs'' ''ab1'' \<lparr>receipt_id = ''tx2''\<rparr> ''text/plain'' 1 [],
          UpsertLive 12 ''docs'' ''A_2'' \<lparr>receipt_id = ''tx3''\<rparr> ''text/plain'' 1 []]
       empty_database"

text \<open>\<open>n\<close> uploads into one bucket, under the keys \<open>k\<close>, \<open>kk\<close>, \<open>kkk\<close>, ...\<close>

definition bulk_put :: "nat \<Rightarrow> store_op" where
  "bulk_put i = UpsertLive 10 ''logs'' (replicate (Suc i) CHR ''k'')
                  \<lparr>receipt_id = replicate (Suc i) CHR ''t''\<rparr> ''text/plain'' 1 []"

definition bulk_database :: "nat \<Rightarrow> database" where
  "bulk_database n = run (map bulk_put [0..<n]) empty_database"

text \<open>
  The invariant behind the order of the timestamps: the rows, in rowid order, carry
  non-decreasing \<open>last_modified\<close> values, none later than \<open>t\<close>.
\<close>

definition stamped_upto :: "nat \<Rightarrow> database \<Rightarrow> bool" where
  "stamped_upto t db \<longleftrightarrow>
     sorted (map last_modified (objects db)) \<and> (\<forall>r \<in> set (objects db). last_modified r \<le> t)"

section \<open>Basic facts about the store operations\<close>

lemma objects_ensureBucketExists: "objects (ensureBucketExists now b db) = objects db"
  by (simp add: ensureBucketExists_def)

lemma objects_seq_ensureBucketExists: "objects_seq (ensureBucketExists now b db) = objects_seq db"
  by (simp add: ensureBucketExists_def)

lemma objects_storeObjectMapping:
  "objects (snd (storeObjectMapping now b k r ct sz md db)) =
     filter (\<lambda>x. irys_id x \<noteq> receipt_id r) (objects db) @
     [\<lparr>id_col = Suc (objects_seq db), bucket = b, key = k, irys_id = receipt_id r,
       content_type = ct, size_col = sz, etag = quote (receipt_id r), last_modified = now,
       metadata = md, created_at = now, updated_at = now, is_deleted = False\<rparr>]"
  by (simp add: storeObjectMapping_def Let_def insert_or_replace_object_def
      objects_ensureBucketExists objects_seq_ensureBucketExists)

lemma no_hit_map_id:
  "filter P xs = [] \<Longrightarrow> map (\<lambda>r. if P r then f r else r) xs = xs"
  by (induction xs) (auto split: if_splits)

lemma filter_mark_empty:
  "filter (\<lambda>r. bucket r = b \<and> key r = k \<and> \<not> is_deleted r)
     (map (\<lambda>r. if bucket r = b \<and> key r = k \<and> \<not> is_deleted r
                 then r\<lparr>is_deleted := True, updated_at := now\<rparr> else r) xs) = []"
  by (induction xs) simp_all

lemma live_rows_after_delete:
  "live_rows b k (snd (deleteObjectMapping now b k db)) = []"
  unfolding live_rows_def deleteObjectMapping_def Let_def
  by (simp add: filter_mark_empty)

lemma deleteObjectMapping_no_live:
  "live_rows b k db = [] \<Longrightarrow> deleteObjectMapping now b k db = (False, db)"
  unfolding live_rows_def deleteObjectMapping_def Let_def
  by (simp add: no_hit_map_id)

lemma ledger_deleteObject: "ledger (snd (deleteObject now b k w)) = ledger w"
  by (simp add: deleteObject_def split: option.splits)

lemma last_modified_deleteObjectMapping:
  "map last_modified (objects (snd (deleteObjectMapping now b k db))) = map last_modified (objects db)"
  unfolding deleteObjectMapping_def Let_def
  by (induction "objects db") (simp_all add: comp_def)

lemma set_select_objects:
  "set (select_objects b opts db) \<subseteq> {r \<in> set (objects db). bucket r = b \<and> \<not> is_deleted r}"
  unfolding select_objects_def Let_def
  by (auto split: jsnum.splits if_splits dest: in_set_takeD)

lemma listObjects_Inr: "listObjects b opts db = Inr rows \<Longrightarrow> rows = select_objects b opts db"
  by (auto simp: listObjects_def split: if_splits)

lemma getObjectMapping_None_iff: "getObjectMapping b k db = None \<longleftrightarrow> live_rows b k db = []"
  by (auto simp: getObjectMapping_def live_rows_def find_None_iff filter_empty_conv)

lemma live_subset_rows: "rows_of b k db = [] \<Longrightarrow> live_rows b k db = []"
  by (auto simp: rows_of_def live_rows_def filter_empty_conv)

lemma filter_fresh: "rid \<notin> irys_id ` set xs \<Longrightarrow> filter (\<lambda>x. irys_id x \<noteq> rid) xs = xs"
  by (induction xs) auto

lemma store_putObject:
  "b \<noteq> [] \<Longrightarrow> k \<noteq> [] \<Longrightarrow>
   store (snd (putObject now b k payload ct md r w)) =
     snd (storeObjectMapping now b k r ct (length payload) md (store w))"
  by (simp add: putObject_def uploadToIrys_def Let_def split: prod.splits option.splits)

lemma run_append: "run (xs @ ys) db = run ys (run xs db)"
  by (induction xs arbitrary: db) simp_all

lemma live_rows_empty_iff:
  "live_rows b k db = [] \<longleftrightarrow> (\<forall>r \<in> set (objects db). bucket r = b \<and> key r = k \<longrightarrow> is_deleted r)"
  by (auto simp: live_rows_def filter_empty_conv)

lemma deleted_stays_deleted:
  assumes "\<forall>r \<in> set (objects db). bucket r = b \<and> key r = k \<longrightarrow> is_deleted r"
  shows "\<forall>r \<in> set (objects (snd (deleteObjectMapping now b' k' db))).
           bucket r = b \<and> key r = k \<longrightarrow> is_deleted r"
  using assms unfolding deleteObjectMapping_def Let_def by auto

lemma live_rows_apply_op_other:
  assumes "\<not> writes_key b k x" "live_rows b k db = []"
  shows "live_rows b k (apply_op x db) = []"
proof (cases x)
  case (UpsertLive now b' k' r ct sz md)
  with assms(1) have "\<not> (b' = b \<and> k' = k)" by simp
  with assms(2) show ?thesis
    unfolding live_rows_empty_iff UpsertLive apply_op.simps objects_storeObjectMapping
    by auto
next
  case (SoftDelete now b' k')
  from assms(2) show ?thesis
    unfolding live_rows_empty_iff SoftDelete apply_op.simps
    by (rule deleted_stays_deleted)
qed

lemma live_rows_run_other:
  "\<not> list_ex (writes_key b k) ops \<Longrightarrow> live_rows b k db = [] \<Longrightarrow> live_rows b k (run ops db) = []"
  by (induction ops arbitrary: db) (simp_all add: live_rows_apply_op_other)

section \<open>Soft delete\<close>

text \<open>
  Claim C8. \<open>deleteObjectMapping\<close> returns true exactly when the key had a live record.
  Called again on the state it leaves, at any later clock reading, it returns false and
  changes nothing; on a key with no live record it returns false, raises nothing and
  changes nothing. The handler \<open>deleteObject\<close> leaves the backend's ledger as it was and
  answers 204 for every bucket and key that are not empty, whether or not a live record
  was there.
\<close>

theorem C8_softDelete:
  "fst (deleteObjectMapping now b k db) = (live_rows b k db \<noteq> [])
   \<and> deleteObjectMapping now' b k (snd (deleteObjectMapping now b k db))
       = (False, snd (deleteObjectMapping now b k db))
   \<and> (live_rows b k db = [] \<longrightarrow> deleteObjectMapping now b k db = (False, db))
   \<and> ledger (snd (deleteObject now b k w)) = ledger w
   \<and> (b \<noteq> [] \<and> k \<noteq> [] \<longrightarrow> fst (deleteObject now b k w) = Inr NoContent)"
proof -
  have 1: "fst (deleteObjectMapping now b k db) = (live_rows b k db \<noteq> [])"
    by (simp add: deleteObjectMapping_def live_rows_def Let_def)
  have 2: "deleteObjectMapping now' b k (snd (deleteObjectMapping now b k db))
       = (False, snd (deleteObjectMapping now b k db))"
    by (rule deleteObjectMapping_no_live) (rule live_rows_after_delete)
  have 3: "live_rows b k db = [] \<longrightarrow> deleteObjectMapping now b k db = (False, db)"
    by (simp add: deleteObjectMapping_no_live)
  have 4: "ledger (snd (deleteObject now b k w)) = ledger w"
    by (rule ledger_deleteObject)
  have 5: "b \<noteq> [] \<and> k \<noteq> [] \<longrightarrow> fst (deleteObject now b k w) = Inr NoContent"
    by (simp add: deleteObject_def split: option.splits)
  show ?thesis
    by (intro conjI) (rule 1, rule 2, rule 3, rule 4, rule 5)
qed

theorem C8_softDelete_witness:
  "live_rows ''docs'' ''a'' emptied_database = [] \<and> ''docs'' \<noteq> [] \<and> ''a'' \<noteq> []
   \<and> deleteObjectMapping 12 ''docs'' ''a'' emptied_database = (False, emptied_database)
   \<and> fst (deleteObject 12 ''docs'' ''a'' \<lparr>ledger = [(''tx1'', ''x'')], store = emptied_database\<rparr>)
       = Inr NoContent
   \<and> ledger (snd (deleteObject 12 ''docs'' ''a'' \<lparr>ledger = [(''tx1'', ''x'')], store = emptied_database\<rparr>))
       = [(''tx1'', ''x'')]"
proof -
  have h: "live_rows ''docs'' ''a'' emptied_database = []" by code_simp
  from C8_softDelete [of 12 "''docs''" "''a''" emptied_database 13
      "\<lparr>ledger = [(''tx1'', ''x'')], store = emptied_database\<rparr>"] h
  show ?thesis by simp
qed

text \<open>
  Claim C9. After \<open>deleteObjectMapping\<close> on a key, and after any further operations
  \<open>ops\<close> none of which writes that key, \<open>getObjectMapping\<close> finds no record for it,
  the SELECT of a listing of the bucket, whatever its options, does not yield it, and so
  no listing that \<open>listObjects\<close> returns holds it. \<open>getObject\<close> gives the same answer
  for the deleted key as for a key that has no row at all in a store \<open>db0\<close>:
  \<open>NoSuchKey\<close> when bucket and key are not empty. The theorem holds whether or not the
  delete found a live record.
\<close>

theorem C9_delete_then_read:
  "(\<not> list_ex (writes_key b k) ops \<longrightarrow>
      getObjectMapping b k (run ops (snd (deleteObjectMapping now b k db))) = None
      \<and> k \<notin> key ` set (select_objects b opts (run ops (snd (deleteObjectMapping now b k db))))
      \<and> (\<forall>rows. listObjects b opts (run ops (snd (deleteObjectMapping now b k db))) = Inr rows
            \<longrightarrow> k \<notin> key ` set rows))
   \<and> (rows_of b k db0 = [] \<longrightarrow>
        getObject b k (snd (deleteObjectMapping now b k db)) = getObject b k db0)
   \<and> (b \<noteq> [] \<and> k \<noteq> [] \<longrightarrow>
        getObject b k (snd (deleteObjectMapping now b k db)) = Inl NoSuchKey)"
proof -
  let ?db = "snd (deleteObjectMapping now b k db)"
  have g: "getObjectMapping b k ?db = None"
    by (simp add: getObjectMapping_None_iff live_rows_after_delete)
  have l: "getObjectMapping b k (run ops ?db) = None
           \<and> k \<notin> key ` set (select_objects b opts (run ops ?db))
           \<and> (\<forall>rows. listObjects b opts (run ops ?db) = Inr rows \<longrightarrow> k \<notin> key ` set rows)"
    if h: "\<not> list_ex (writes_key b k) ops"
  proof -
    from h have none: "live_rows b k (run ops ?db) = []"
      by (rule live_rows_run_other) (rule live_rows_after_delete)
    then have 1: "getObjectMapping b k (run ops ?db) = None"
      by (simp add: getObjectMapping_None_iff)
    have 2: "k \<notin> key ` set (select_objects b opts (run ops ?db))"
    proof
      assume "k \<in> key ` set (select_objects b opts (run ops ?db))"
      then obtain r where r: "r \<in> set (select_objects b opts (run ops ?db))" "key r = k" by auto
      with set_select_objects[of b opts "run ops ?db"]
      have "r \<in> set (objects (run ops ?db))" "bucket r = b" "\<not> is_deleted r" by auto
      with r have "r \<in> set (live_rows b k (run ops ?db))" by (simp add: live_rows_def)
      then show False by (simp add: none)
    qed
    have 3: "\<forall>rows. listObjects b opts (run ops ?db) = Inr rows \<longrightarrow> k \<notin> key ` set rows"
      using 2 by (auto dest: listObjects_Inr)
    from 1 2 3 show ?thesis by blast
  qed
  have n: "rows_of b k db0 = [] \<longrightarrow> getObject b k ?db = getObject b k db0"
  proof
    assume "rows_of b k db0 = []"
    then have "getObjectMapping b k db0 = None"
      by (simp add: getObjectMapping_None_iff live_subset_rows)
    with g show "getObject b k ?db = getObject b k db0" by (simp add: getObject_def)
  qed
  have e: "b \<noteq> [] \<and> k \<noteq> [] \<longrightarrow> getObject b k ?db = Inl NoSuchKey"
    using g by (simp add: getObject_def)
  from l n e show ?thesis by blast
qed

theorem C9_delete_then_read_witness:
  "\<not> list_ex (writes_key ''docs'' ''a'')
       [UpsertLive 12 ''docs'' ''b'' \<lparr>receipt_id = ''tx2''\<rparr> ''text/plain'' 2 []]
   \<and> rows_of ''docs'' ''a'' empty_database = [] \<and> ''docs'' \<noteq> [] \<and> ''a'' \<noteq> []
   \<and> fst (deleteObjectMapping 11 ''docs'' ''a'' single_database)
   \<and> getObjectMapping ''docs'' ''a''
        (run [UpsertLive 12 ''docs'' ''b'' \<lparr>receipt_id = ''tx2''\<rparr> ''text/plain'' 2 []]
           (snd (deleteObjectMapping 11 ''docs'' ''a'' single_database))) = None
   \<and> map_sum id (map key)
        (listObjects ''docs'' \<lparr>prefix = [], marker = [], maxKeys = Num 1000, delimiter = []\<rparr>
           (run [UpsertLive 12 ''docs'' ''b'' \<lparr>receipt_id = ''tx2''\<rparr> ''text/plain'' 2 []]
              (snd (deleteObjectMapping 11 ''docs'' ''a'' single_database)))) = Inr [''b'']
   \<and> ''a'' \<notin> key ` set (select_objects ''docs''
        \<lparr>prefix = [], marker = [], maxKeys = Num 1000, delimiter = []\<rparr>
           (run [UpsertLive 12 ''docs'' ''b'' \<lparr>receipt_id = ''tx2''\<rparr> ''text/plain'' 2 []]
              (snd (deleteObjectMapping 11 ''docs'' ''a'' single_database))))
   \<and> getObject ''docs'' ''a'' (snd (deleteObjectMapping 11 ''docs'' ''a'' single_database))
       = getObject ''docs'' ''a'' empty_database
   \<and> getObject ''docs'' ''a'' (snd (deleteObjectMapping 11 ''docs'' ''a'' single_database))
       = Inl NoSuchKey"
proof -
  have h: "rows_of ''docs'' ''a'' empty_database = []"
    by (simp add: rows_of_def empty_database_def)
  have d: "fst (deleteObjectMapping 11 ''docs'' ''a'' single_database)" by code_simp
  have n: "''docs'' \<noteq> [] \<and> ''a'' \<noteq> []" by simp
  have w: "\<not> list_ex (writes_key ''docs'' ''a'')
       [UpsertLive 12 ''docs'' ''b'' \<lparr>receipt_id = ''tx2''\<rparr> ''text/plain'' 2 []]" by simp
  have v: "map_sum id (map key)
        (listObjects ''docs'' \<lparr>prefix = [], marker = [], maxKeys = Num 1000, delimiter = []\<rparr>
           (run [UpsertLive 12 ''docs'' ''b'' \<lparr>receipt_id = ''tx2''\<rparr> ''text/plain'' 2 []]
              (snd (deleteObjectMapping 11 ''docs'' ''a'' single_database)))) = Inr [''b'']"
    by code_simp
  note t = C9_delete_then_read [of "''docs''" "''a''"
      "[UpsertLive 12 ''docs'' ''b'' \<lparr>receipt_id = ''tx2''\<rparr> ''text/plain'' 2 []]"
      11 single_database
      "\<lparr>prefix = [], marker = [], maxKeys = Num 1000, delimiter = []\<rparr>" empty_database]
  from t w have 1: "getObjectMapping ''docs'' ''a''
        (run [UpsertLive 12 ''docs'' ''b'' \<lparr>receipt_id = ''tx2''\<rparr> ''text/plain'' 2 []]
           (snd (deleteObjectMapping 11 ''docs'' ''a'' single_database))) = None" by blast
  from t w have 4: "''a'' \<notin> key ` set (select_objects ''docs''
        \<lparr>prefix = [], marker = [], maxKeys = Num 1000, delimiter = []\<rparr>
           (run [UpsertLive 12 ''docs'' ''b'' \<lparr>receipt_id = ''tx2''\<rparr> ''text/plain'' 2 []]
              (snd (deleteObjectMapping 11 ''docs'' ''a'' single_database))))" by blast
  from t h have 2: "getObject ''docs'' ''a'' (snd (deleteObjectMapping 11 ''docs'' ''a'' single_database))
       = getObject ''docs'' ''a'' empty_database" by blast
  from t n have 3: "getObject ''docs'' ''a'' (snd (deleteObjectMapping 11 ''docs'' ''a'' single_database))
       = Inl NoSuchKey" by blast
  from w h n d v 1 2 3 4 show ?thesis by blast
qed

section \<open>What a write leaves untouched\<close>

text \<open>
  Claim C10. \<open>storeObjectMapping\<close> on \<open>(b, k)\<close> removes from the rows of the other
  (bucket, key) pairs exactly those that carry the receipt id of the call, and changes
  none of the others. So when the receipt id is not yet the \<open>irys_id\<close> of any row, the
  rows of every other pair are the same after the call as before.
\<close>

theorem C10_frame:
  "other_rows b k (snd (storeObjectMapping now b k r ct sz md db))
     = filter (\<lambda>x. irys_id x \<noteq> receipt_id r) (other_rows b k db)
   \<and> (receipt_id r \<notin> irys_id ` set (objects db) \<longrightarrow>
        other_rows b k (snd (storeObjectMapping now b k r ct sz md db)) = other_rows b k db)"
proof -
  have a: "other_rows b k (snd (storeObjectMapping now b k r ct sz md db))
     = filter (\<lambda>x. irys_id x \<noteq> receipt_id r) (other_rows b k db)"
    unfolding other_rows_def objects_storeObjectMapping
    by (simp add: conj_commute)
  have b: "receipt_id r \<notin> irys_id ` set (objects db) \<Longrightarrow>
      filter (\<lambda>x. irys_id x \<noteq> receipt_id r) (other_rows b k db) = other_rows b k db"
    unfolding other_rows_def by (rule filter_fresh) auto
  from a b show ?thesis by simp
qed

theorem C10_frame_witness:
  "receipt_id \<lparr>receipt_id = ''tx2''\<rparr> \<notin> irys_id ` set (objects single_database)
   \<and> map key (other_rows ''docs'' ''b'' single_database) = [''a'']
   \<and> other_rows ''docs'' ''b''
        (snd (storeObjectMapping 20 ''docs'' ''b'' \<lparr>receipt_id = ''tx2''\<rparr> ''text/plain'' 2 []
           single_database))
       = other_rows ''docs'' ''b'' single_database"
proof -
  have h: "receipt_id \<lparr>receipt_id = ''tx2''\<rparr> \<notin> irys_id ` set (objects single_database)"
    by code_simp
  have o: "map key (other_rows ''docs'' ''b'' single_database) = [''a'']" by code_simp
  from C10_frame [of "''docs''" "''b''" 20 "\<lparr>receipt_id = ''tx2''\<rparr>" "''text/plain''" 2 "[]"
      single_database] h
  have "other_rows ''docs'' ''b''
        (snd (storeObjectMapping 20 ''docs'' ''b'' \<lparr>receipt_id = ''tx2''\<rparr> ''text/plain'' 2 []
           single_database))
       = other_rows ''docs'' ''b'' single_database" by blast
  with h o show ?thesis by blast
qed

text \<open>
  A receipt id that another key already carries: the write to \<open>b\<close> takes the row of
  \<open>a\<close> away.
\<close>

lemma storeObjectMapping_reused_receipt:
  "map key (objects (snd (storeObjectMapping 20 ''docs'' ''b'' \<lparr>receipt_id = ''tx1''\<rparr>
      ''text/plain'' 2 [] single_database))) = [''b'']"
  by code_simp

section \<open>Timestamps\<close>

lemma stamped_upto_apply_op:
  assumes "stamped_upto t db" "t \<le> op_time x"
  shows "stamped_upto (op_time x) (apply_op x db)"
proof (cases x)
  case (UpsertLive now b k r ct sz md)
  have s: "sorted (map last_modified (filter (\<lambda>x. irys_id x \<noteq> receipt_id r) (objects db)))"
    using assms(1) by (simp add: stamped_upto_def sorted_filter)
  have le: "\<forall>y \<in> set (filter (\<lambda>x. irys_id x \<noteq> receipt_id r) (objects db)). last_modified y \<le> now"
    using assms UpsertLive by (auto simp: stamped_upto_def)
  show ?thesis
    using s le UpsertLive
    by (simp add: stamped_upto_def objects_storeObjectMapping sorted_append)
next
  case (SoftDelete now b k)
  have m: "map last_modified (objects (apply_op x db)) = map last_modified (objects db)"
    using SoftDelete by (simp add: last_modified_deleteObjectMapping)
  have "\<forall>v \<in> set (map last_modified (objects (apply_op x db))). v \<le> op_time x"
    unfolding m using assms by (auto simp: stamped_upto_def)
  then have "\<forall>r \<in> set (objects (apply_op x db)). last_modified r \<le> op_time x"
    by simp
  moreover have "sorted (map last_modified (objects (apply_op x db)))"
    unfolding m using assms(1) by (simp add: stamped_upto_def)
  ultimately show ?thesis by (simp add: stamped_upto_def)
qed

lemma stamped_upto_run:
  "stamped_upto t db \<Longrightarrow> sorted (t # map op_time ops) \<Longrightarrow>
     sorted (map last_modified (objects (run ops db)))"
proof (induction ops arbitrary: t db)
  case Nil
  then show ?case by (simp add: stamped_upto_def)
next
  case (Cons x xs)
  from Cons.prems have "t \<le> op_time x" by simp
  with Cons.prems(1) have "stamped_upto (op_time x) (apply_op x db)"
    by (rule stamped_upto_apply_op)
  moreover from Cons.prems(2) have "sorted (op_time x # map op_time xs)" by simp
  ultimately show ?case using Cons.IH by simp
qed

text \<open>
  Claim C7, as the code has it. A write stamps its record with the reading of the store's
  clock, in whole seconds. So for every sequence of writes and deletes, from the empty
  store, whose clock readings do not decrease, the \<open>last_modified\<close> values of the rows
  of any key, in the order they were written, do not decrease. Nothing makes a later
  record's value strictly greater: it is so only when the clock has advanced.
\<close>

theorem C7_last_modified_non_decreasing:
  "last_modified (last (objects (snd (storeObjectMapping now b k r ct sz md db)))) = now
   \<and> (sorted (map op_time ops) \<longrightarrow>
        sorted (map last_modified (rows_of b' k' (run ops empty_database))))"
proof -
  have stamp: "last_modified (last (objects (snd (storeObjectMapping now b k r ct sz md db)))) = now"
    by (simp add: objects_storeObjectMapping)
  have ord: "sorted (map last_modified (rows_of b' k' (run ops empty_database)))"
    if h: "sorted (map op_time ops)"
  proof -
    have "stamped_upto 0 empty_database"
      by (simp add: stamped_upto_def empty_database_def)
    moreover have "sorted (0 # map op_time ops)" using h by simp
    ultimately have "sorted (map last_modified (objects (run ops empty_database)))"
      by (rule stamped_upto_run)
    then show ?thesis unfolding rows_of_def by (rule sorted_filter)
  qed
  from stamp ord show ?thesis by blast
qed

theorem C7_last_modified_non_decreasing_witness:
  "sorted (map op_time same_second_ops)
   \<and> sorted (map last_modified (rows_of ''photos'' ''cat.png'' (run same_second_ops empty_database)))"
proof -
  have h: "sorted (map op_time same_second_ops)" by (simp add: same_second_ops_def)
  from C7_last_modified_non_decreasing [of _ _ _ _ _ _ _ _ same_second_ops "''photos''" "''cat.png''"] h
  show ?thesis by blast
qed

text \<open>
  Two writes of one key within the same second: the record of the second write has the
  \<open>last_modified\<close> of the first, not a greater one.
\<close>

theorem C7_same_second_counterexample:
  "map (\<lambda>r. (irys_id r, last_modified r))
      (rows_of ''photos'' ''cat.png'' (run same_second_ops empty_database))
     = [(''tx1'', 10), (''tx2'', 10)]"
  by code_simp

section \<open>The ETag\<close>

text \<open>
  Claim C2, as the code has it. The ETag of the record that \<open>putObject\<close> commits is the
  receipt id of the backend between two double quotes, whatever the payload: the
  payload gives the record its size and nothing else.
\<close>

theorem C2_etag_is_quoted_receipt_id:
  assumes "b \<noteq> []" "k \<noteq> []"
  shows "objects (store (snd (putObject now b k payload ct md r w))) =
           filter (\<lambda>x. irys_id x \<noteq> receipt_id r) (objects (store w)) @
           [\<lparr>id_col = Suc (objects_seq (store w)), bucket = b, key = k, irys_id = receipt_id r,
             content_type = ct, size_col = length payload,
             etag = CHR 0x22 # receipt_id r @ [CHR 0x22], last_modified = now,
             metadata = md, created_at = now, updated_at = now, is_deleted = False\<rparr>]"
  using assms by (simp add: store_putObject objects_storeObjectMapping quote_def)

theorem C2_etag_is_quoted_receipt_id_witness:
  "''docs'' \<noteq> [] \<and> ''one'' \<noteq> [] \<and>
   map etag (objects (store (snd (putObject 10 ''docs'' ''one'' ''hello'' ''text/plain'' []
      \<lparr>receipt_id = ''tx1''\<rparr> empty_world)))) = [CHR 0x22 # ''tx1'' @ [CHR 0x22]]"
  using C2_etag_is_quoted_receipt_id [of "''docs''" "''one''" 10 "''hello''" "''text/plain''" "[]"
      "\<lparr>receipt_id = ''tx1''\<rparr>" empty_world]
  by (simp add: empty_world_def empty_database_def)

text \<open>
  The same five bytes uploaded twice, under two keys, with the receipts \<open>tx1\<close> and
  \<open>tx2\<close>: the two answers carry different ETags.
\<close>

theorem C2_same_bytes_counterexample:
  "map_sum id put_ETag
      (fst (putObject 10 ''docs'' ''one'' ''hello'' ''text/plain'' [] \<lparr>receipt_id = ''tx1''\<rparr> empty_world))
     = Inr (quote ''tx1'')
   \<and> map_sum id put_ETag
      (fst (putObject 11 ''docs'' ''two'' ''hello'' ''text/plain'' [] \<lparr>receipt_id = ''tx2''\<rparr>
         (snd (putObject 10 ''docs'' ''one'' ''hello'' ''text/plain'' [] \<lparr>receipt_id = ''tx1''\<rparr> empty_world))))
     = Inr (quote ''tx2'')
   \<and> quote ''tx1'' \<noteq> quote ''tx2''"
  by code_simp

section \<open>Overwriting a key\<close>

text \<open>
  What a write does to the live rows of its key: it removes the row that carries the
  same receipt id, if there is one, and adds the new row. The earlier live rows stay.
\<close>

lemma live_rows_storeObjectMapping:
  "live_rows b k (snd (storeObjectMapping now b k r ct sz md db)) =
     filter (\<lambda>x. irys_id x \<noteq> receipt_id r) (live_rows b k db) @
     [\<lparr>id_col = Suc (objects_seq db), bucket = b, key = k, irys_id = receipt_id r,
       content_type = ct, size_col = sz, etag = quote (receipt_id r), last_modified = now,
       metadata = md, created_at = now, updated_at = now, is_deleted = False\<rparr>]"
  unfolding live_rows_def objects_storeObjectMapping
  by (simp add: conj_commute)

lemma getObjectMapping_live_rows:
  "getObjectMapping b k db = (case live_rows b k db of [] \<Rightarrow> None | r # _ \<Rightarrow> Some r)"
proof -
  have "find P xs = (case filter P xs of [] \<Rightarrow> None | r # _ \<Rightarrow> Some r)"
    for P and xs :: "object_row list"
    by (induction xs) simp_all
  then show ?thesis unfolding getObjectMapping_def live_rows_def .
qed

text \<open>On a key without a live row the write returns the record it has stored.\<close>

lemma storeObjectMapping_first_write:
  assumes "live_rows b k db = []"
  shows "fst (storeObjectMapping now b k r ct sz md db) =
     Some \<lparr>id_col = Suc (objects_seq db), bucket = b, key = k, irys_id = receipt_id r,
       content_type = ct, size_col = sz, etag = quote (receipt_id r), last_modified = now,
       metadata = md, created_at = now, updated_at = now, is_deleted = False\<rparr>"
proof -
  have "fst (storeObjectMapping now b k r ct sz md db)
          = getObjectMapping b k (snd (storeObjectMapping now b k r ct sz md db))"
    by (simp add: storeObjectMapping_def Let_def)
  then show ?thesis
    by (simp add: getObjectMapping_live_rows live_rows_storeObjectMapping assms)
qed

text \<open>
  Claim C1, evaluated on the code. A key written twice under two receipt ids: the second
  INSERT OR REPLACE finds no row with its \<open>irys_id\<close>, removes and marks nothing, and
  the key has two live rows.
\<close>

theorem C1_two_live_records:
  "map (\<lambda>r. (irys_id r, is_deleted r)) (live_rows ''photos'' ''cat.png'' overwritten_database)
     = [(''tx1'', False), (''tx2'', False)]"
  by code_simp

text \<open>
  Claim C3, evaluated on the code. On the same two writes, the second
  \<open>storeObjectMapping\<close> returns, and \<open>getObjectMapping\<close> then reads, the record of the
  first write: receipt \<open>tx1\<close>, size 3.
\<close>

theorem C3_read_after_overwrite_is_stale:
  "map_option (\<lambda>r. (irys_id r, size_col r, etag r))
     (fst (storeObjectMapping 20 ''photos'' ''cat.png'' \<lparr>receipt_id = ''tx2''\<rparr> ''image/png'' 4 []
        (snd (storeObjectMapping 10 ''photos'' ''cat.png'' \<lparr>receipt_id = ''tx1''\<rparr> ''image/png'' 3 []
           empty_database)))) = Some (''tx1'', 3, quote ''tx1'')
   \<and> map_option (\<lambda>r. (irys_id r, size_col r, etag r))
     (getObjectMapping ''photos'' ''cat.png'' overwritten_database) = Some (''tx1'', 3, quote ''tx1'')"
  by code_simp

section \<open>Listing a bucket\<close>

text \<open>
  The parts of the listing contract that hold: the keys come in ascending order, above
  the marker when one is given, and a text that starts with the prefix matches the
  pattern made from it (as long as SQLite reads both in full, that is, when they hold no
  NUL).
\<close>

lemma select_objects_sorted: "sorted (map key (select_objects b opts db))"
  unfolding select_objects_def Let_def
  by (simp add: take_map [symmetric] split: jsnum.splits)

lemma select_objects_after_marker:
  "marker opts \<noteq> [] \<Longrightarrow> r \<in> set (select_objects b opts db) \<Longrightarrow> marker opts < key r"
  unfolding select_objects_def Let_def
  by (auto split: jsnum.splits if_splits dest: in_set_takeD)

lemma utf8_tail_ascii: "c < CHR 0xC0 \<Longrightarrow> utf8_tail (c # cs) = cs"
  by (simp add: utf8_tail_def)

lemma sql_like_percent: "sql_like ps s \<Longrightarrow> sql_like (CHR ''%'' # ps) s"
  by (cases s) simp_all

lemma sql_like_any: "sql_like ''%'' s"
proof (induction "length s" arbitrary: s rule: less_induct)
  case less
  show ?case
  proof (cases s)
    case Nil
    then show ?thesis by simp
  next
    case (Cons c cs)
    have "length (utf8_tail (c # cs)) \<le> length cs"
      by (simp add: utf8_tail_def length_dropWhile_le)
    then have "length (utf8_tail (c # cs)) < length s" using Cons by simp
    then have "sql_like ''%'' (utf8_tail (c # cs))" by (rule less)
    then show ?thesis using Cons by simp
  qed
qed

lemma sql_like_prefix: "sql_like (p @ ''%'') (p @ s)"
proof (induction p)
  case Nil
  show ?case using sql_like_any by simp
next
  case (Cons c p)
  show ?case
  proof (cases "c = CHR ''%''")
    case True
    have "utf8_tail (CHR ''%'' # p @ s) = p @ s" by (rule utf8_tail_ascii) simp
    moreover have "sql_like (CHR ''%'' # p @ ''%'') (p @ s)"
      using Cons.IH by (rule sql_like_percent)
    ultimately show ?thesis using True by simp
  next
    case False
    show ?thesis
    proof (cases "c = CHR ''_''")
      case True
      have "utf8_tail (CHR ''_'' # p @ s) = p @ s" by (rule utf8_tail_ascii) simp
      with True Cons.IH show ?thesis by simp
    next
      case False
      with \<open>c \<noteq> CHR ''%''\<close> Cons.IH show ?thesis by simp
    qed
  qed
qed

lemma sqlite_like_prefix:
  assumes "CHR 0x00 \<notin> set p"
  shows "sqlite_like (p @ ''%'') (p @ s)"
proof -
  from assms have n: "\<forall>c \<in> set p. c \<noteq> CHR 0x00" by auto
  have "c_str (p @ ''%'') = p @ ''%''"
    unfolding c_str_def using n by (simp add: takeWhile_append2)
  moreover have "c_str (p @ s) = p @ c_str s"
    unfolding c_str_def using n by (simp add: takeWhile_append2)
  ultimately show ?thesis by (simp add: sqlite_like_def sql_like_prefix)
qed

text \<open>
  Claim C4, evaluated on the code. The prefix goes into a LIKE pattern as it is. With
  the keys \<open>a_1\<close>, \<open>ab1\<close> and \<open>A_2\<close> in the bucket, the listing for the prefix \<open>a_\<close>
  returns all three, though only \<open>a_1\<close> starts with \<open>a_\<close>.
\<close>

theorem C4_prefix_is_a_like_pattern:
  "map_sum id (map key)
     (listObjects ''docs'' \<lparr>prefix = ''a_'', marker = [], maxKeys = Num 1000, delimiter = []\<rparr>
        wildcard_database) = Inr [''A_2'', ''a_1'', ''ab1'']"
  by code_simp

lemma bulk_database_Suc: "bulk_database (Suc n) = apply_op (bulk_put n) (bulk_database n)"
  by (simp add: bulk_database_def run_append)

lemma bulk_database_live:
  "length (objects (bulk_database n)) = n
   \<and> (\<forall>r \<in> set (objects (bulk_database n)).
         bucket r = ''logs'' \<and> \<not> is_deleted r \<and> length (irys_id r) \<le> n)"
proof (induction n)
  case 0
  show ?case by (simp add: bulk_database_def empty_database_def)
next
  case (Suc n)
  let ?old = "objects (bulk_database n)"
  have fresh: "filter (\<lambda>x. irys_id x \<noteq> replicate (Suc n) CHR ''t'') ?old = ?old"
  proof -
    have "\<forall>r \<in> set ?old. irys_id r \<noteq> replicate (Suc n) CHR ''t''"
    proof
      fix r assume "r \<in> set ?old"
      with Suc.IH have "length (irys_id r) \<le> n" by blast
      then show "irys_id r \<noteq> replicate (Suc n) CHR ''t''" by auto
    qed
    then show ?thesis by (simp add: filter_id_conv)
  qed
  have obj: "objects (bulk_database (Suc n)) =
      ?old @ [\<lparr>id_col = Suc (objects_seq (bulk_database n)), bucket = ''logs'',
        key = replicate (Suc n) CHR ''k'', irys_id = replicate (Suc n) CHR ''t'',
        content_type = ''text/plain'', size_col = 1, etag = quote (replicate (Suc n) CHR ''t''),
        last_modified = 10, metadata = [], created_at = 10, updated_at = 10, is_deleted = False\<rparr>]"
    unfolding bulk_database_Suc bulk_put_def apply_op.simps objects_storeObjectMapping
    using fresh by simp
  show ?case unfolding obj using Suc.IH by auto
qed

lemma parseInt_abc: "parseInt ''abc'' = NaN"
  by code_simp

lemma listObjects_no_prefix:
  "listObjects b \<lparr>prefix = [], marker = m, maxKeys = n, delimiter = d\<rparr> db
     = Inr (select_objects b \<lparr>prefix = [], marker = m, maxKeys = n, delimiter = d\<rparr> db)"
  by (simp add: listObjects_def like_pattern_refused_def)

lemma listObjects_short_prefix:
  "length p < 50000 \<Longrightarrow>
   listObjects b \<lparr>prefix = p, marker = m, maxKeys = n, delimiter = d\<rparr> db
     = Inr (select_objects b \<lparr>prefix = p, marker = m, maxKeys = n, delimiter = d\<rparr> db)"
  by (simp add: listObjects_def like_pattern_refused_def)

lemma listObjectsV1_NaN:
  assumes "b \<noteq> []" "q_max_keys q = Some mk" "parseInt mk = NaN"
    and "q_prefix q = None" "q_marker q = None"
  shows "\<exists>resp. listObjectsV1 zone b q db = Inr resp \<and> \<not> IsTruncated resp
           \<and> length (Contents resp) =
               length (filter (\<lambda>r. bucket r = b \<and> \<not> is_deleted r) (objects db))"
  using assms
  by (simp add: listObjectsV1_def Let_def listObjects_no_prefix select_objects_def)

text \<open>
  Claim C5, evaluated on the code. With \<open>max-keys=abc\<close>, \<open>parseInt\<close> gives NaN,
  \<open>Math.min\<close> keeps it, \<open>maxKeys > 0\<close> is false in \<open>listObjects\<close> and the query
  has no LIMIT: on a bucket of 1001 objects the answer holds 1001 entries and is not
  marked truncated, in every zone of the server.
\<close>

theorem C5_non_numeric_max_keys_unbounded:
  "\<exists>resp. listObjectsV1 zone ''logs'' (max_keys_query ''abc'') (bulk_database 1001) = Inr resp
      \<and> \<not> IsTruncated resp \<and> length (Contents resp) = 1001"
proof -
  have f: "filter (\<lambda>r. bucket r = ''logs'' \<and> \<not> is_deleted r) (objects (bulk_database 1001))
            = objects (bulk_database 1001)"
    using bulk_database_live [of 1001] by (simp add: filter_id_conv)
  have "length (filter (\<lambda>r. bucket r = ''logs'' \<and> \<not> is_deleted r) (objects (bulk_database 1001)))
          = 1001"
    unfolding f using bulk_database_live [of 1001] by simp
  moreover have "\<exists>resp. listObjectsV1 zone ''logs'' (max_keys_query ''abc'') (bulk_database 1001)
        = Inr resp
      \<and> \<not> IsTruncated resp \<and> length (Contents resp) =
               length (filter (\<lambda>r. bucket r = ''logs'' \<and> \<not> is_deleted r) (objects (bulk_database 1001)))"
    by (rule listObjectsV1_NaN [where mk = "''abc''"]) (simp_all add: max_keys_query_def parseInt_abc)
  ultimately show ?thesis by simp
qed

lemma length_select_objects_limit:
  "0 < n \<Longrightarrow>
     length (select_objects b \<lparr>prefix = p, marker = m, maxKeys = Num n, delimiter = d\<rparr> db) \<le> nat n"
  by (simp add: select_objects_def Let_def)

lemma Key_last_entries: "xs \<noteq> [] \<Longrightarrow> Key (last (map (to_entry zone) xs)) = key (last xs)"
  by (simp add: last_map to_entry_def)

text \<open>
  What the handler does for a \<open>max-keys\<close> that parses to a positive integer (the
  default \<open>1000\<close> included) and a prefix below the pattern limit of SQLite: at most
  \<open>min n 1000\<close> entries, and on a truncated page the marker is the key of the last
  entry (no marker is set when that key is empty).
\<close>

lemma listObjectsV1_positive:
  assumes b: "b \<noteq> []"
    and p: "parseInt (case q_max_keys q of None \<Rightarrow> ''1000'' | Some s \<Rightarrow> s) = Num n"
    and n: "1 \<le> n"
    and short: "length (case q_prefix q of None \<Rightarrow> [] | Some s \<Rightarrow> s) < 50000"
  shows "\<exists>resp. listObjectsV1 zone b q db = Inr resp
           \<and> length (Contents resp) \<le> 1000 \<and> length (Contents resp) \<le> nat n
           \<and> (IsTruncated resp \<longrightarrow>
                Contents resp \<noteq> [] \<and> length (Contents resp) = nat (min n 1000)
                \<and> NextMarker resp = (if Key (last (Contents resp)) = [] then None
                                      else Some (Key (last (Contents resp)))))"
proof -
  define m where "m = min n 1000"
  define pre where "pre = (case q_prefix q of None \<Rightarrow> [] | Some s \<Rightarrow> s)"
  define mark where "mark = (case q_marker q of None \<Rightarrow> [] | Some s \<Rightarrow> s)"
  define delim where "delim = (case q_delimiter q of None \<Rightarrow> [] | Some s \<Rightarrow> s)"
  define objs where "objs = select_objects b \<lparr>prefix = pre, marker = mark,
                                      maxKeys = Num (m + 1), delimiter = delim\<rparr> db"
  have m1: "1 \<le> m" "m \<le> 1000" "m \<le> n" using n by (simp_all add: m_def)
  have lst: "listObjects b \<lparr>prefix = pre, marker = mark,
                             maxKeys = Num (m + 1), delimiter = delim\<rparr> db = Inr objs"
    unfolding objs_def using short by (intro listObjects_short_prefix) (simp add: pre_def)
  have len: "length objs \<le> nat (m + 1)"
    unfolding objs_def using m1 by (intro length_select_objects_limit) simp
  show ?thesis
  proof (cases "int (length objs) > m")
    case True
    let ?ret = "take (nat m) objs"
    have ne: "?ret \<noteq> []" using True m1 by auto
    have l: "length ?ret = nat m" using True by simp
    have eq: "listObjectsV1 zone b q db =
        Inr \<lparr>Name = b, Prefix = pre, Marker = mark, MaxKeys = Num m, IsTruncated = True,
             Contents = map (to_entry zone) ?ret,
             NextMarker = (if key (last ?ret) = [] then None else Some (key (last ?ret)))\<rparr>"
      using b p True ne m1
      by (simp add: listObjectsV1_def Let_def slice0_def m_def [symmetric] pre_def [symmetric]
          mark_def [symmetric] delim_def [symmetric] lst)
    have "nat m \<le> 1000" "nat m \<le> nat n" using m1 by linarith+
    then show ?thesis
      unfolding eq using ne l by (simp add: Key_last_entries m_def [symmetric])
  next
    case False
    have eq: "listObjectsV1 zone b q db =
        Inr \<lparr>Name = b, Prefix = pre, Marker = mark, MaxKeys = Num m, IsTruncated = False,
             Contents = map (to_entry zone) objs, NextMarker = None\<rparr>"
      using b p False
      by (simp add: listObjectsV1_def Let_def m_def [symmetric] pre_def [symmetric]
          mark_def [symmetric] delim_def [symmetric] lst)
    have "length objs \<le> 1000" "length objs \<le> nat n" using False m1 by linarith+
    then show ?thesis
      unfolding eq by simp
  qed
qed

lemma listObjectsV1_no_bucket: "listObjectsV1 zone [] q db = Inl MissingParameter"
  by (simp add: listObjectsV1_def Let_def)

text \<open>
  A prefix at the pattern limit, on a bucket that has a row: the query fails and the
  handler answers 500.
\<close>

lemma listObjectsV1_long_prefix:
  "listObjectsV1 zone ''docs''
     \<lparr>q_prefix = Some (replicate 50000 CHR ''x''), q_marker = None, q_max_keys = None,
       q_delimiter = None\<rparr> single_database = Inl InternalError"
proof -
  have "like_pattern_refused ''docs''
      \<lparr>prefix = replicate 50000 CHR ''x'', marker = [], maxKeys = n, delimiter = []\<rparr>
      single_database" for n
    by (simp add: like_pattern_refused_def single_database_def objects_storeObjectMapping)
  then show ?thesis
    by (simp add: listObjectsV1_def Let_def listObjects_def)
qed

lemma select_objects_no_live:
  assumes "\<forall>r \<in> set (objects db). bucket r = b \<longrightarrow> is_deleted r"
  shows "select_objects b opts db = []"
proof -
  have "filter (\<lambda>r. bucket r = b \<and> \<not> is_deleted r) (objects db) = []"
    using assms by (auto simp: filter_empty_conv)
  then show ?thesis
    unfolding select_objects_def Let_def by (simp split: jsnum.splits)
qed

text \<open>
  With \<open>max-keys=0\<close> the lookahead asks for one row. When it finds one, the page is
  truncated and empty, and the handler reads the key of the last entry of an empty page:
  it throws, for every bucket that has a live record the request matches.
\<close>

lemma listObjectsV1_max_keys_zero_throws:
  assumes "b \<noteq> []"
    and "parseInt (case q_max_keys q of None \<Rightarrow> ''1000'' | Some s \<Rightarrow> s) = Num 0"
    and "listObjects b \<lparr>prefix = (case q_prefix q of None \<Rightarrow> [] | Some s \<Rightarrow> s),
                          marker = (case q_marker q of None \<Rightarrow> [] | Some s \<Rightarrow> s),
                          maxKeys = Num 1,
                          delimiter = (case q_delimiter q of None \<Rightarrow> [] | Some s \<Rightarrow> s)\<rparr> db
           = Inr objs"
    and "objs \<noteq> []"
  shows "listObjectsV1 zone b q db = Inl InternalError"
  using assms by (simp add: listObjectsV1_def Let_def slice0_def)

text \<open>
  On a bucket without a live record the same request finds no row: the page is empty,
  not truncated, and has no marker.
\<close>

lemma listObjectsV1_max_keys_zero_empty_bucket:
  "listObjectsV1 utc ''docs'' (max_keys_query ''0'') emptied_database =
     Inr \<lparr>Name = ''docs'', Prefix = [], Marker = [], MaxKeys = Num 0, IsTruncated = False,
          Contents = [], NextMarker = None\<rparr>"
  by code_simp

text \<open>
  Claim C6, evaluated on the code. The bucket \<open>docs\<close> holds one live record and is
  listed with \<open>max-keys=0\<close>: the handler does not complete with an empty, truncated
  page and a marker; it throws on the key of the last entry of the empty page, and the
  answer is status 500, \<open>InternalError\<close>.
\<close>

theorem C6_max_keys_zero_throws_on_live_bucket:
  "listObjectsV1 utc ''docs'' (max_keys_query ''0'') single_database = Inl InternalError"
  by code_simp

end
